theory Spec2Isabelle
  imports Complex_Main "HOL-Library.Sublist"
begin

section \<open>The inventory server: data\<close>

text \<open>
  The server keeps one JSON document, an array of item objects, and re-reads it at the
  start of every request (\<^verbatim>\<open>readData\<close>) and rewrites it whole after a mutation
  (\<^verbatim>\<open>writeData\<close>). The model passes the parsed array from request to request: a
  handler takes the array the file holds and returns its response together with the array
  the file holds afterwards. A failing read or write of the file itself is not modelled.

  A JSON object is a map from property names to values; the order of the properties in the
  serialised text is not modelled. A JSON number is a rational: the numbers a document can
  hold are the finite doubles, which are rationals, and where the handlers compute a new
  number the rounding to a double is the engine's (below). A string is the sequence of its
  characters in UTF-8, so an ASCII character is one \<open>char\<close>; a string with an unpaired
  surrogate is outside the model.
\<close>

datatype json =
    JNull
  | JBool bool
  | JNum rat
  | JStr string
  | JArr "json list"
  | JObj "string \<Rightarrow> json option"

type_synonym obj = "string \<Rightarrow> json option"

type_synonym store = "obj list"

text \<open>The three failure responses of the handlers: 400, 404 and the 500 of the
  \<^verbatim>\<open>catch\<close> blocks.\<close>

datatype error = ValidationError | NotFound | ServerError

text \<open>A JavaScript number as the handlers compute with it: a finite double,
  \<^verbatim>\<open>NaN\<close>, or one of the two infinities.\<close>

datatype jsnum = NaN | PosInf | NegInf | Num rat

section \<open>The engine\<close>

text \<open>
  Some of what the language does is not written out here, because it depends on the
  Unicode tables, on the double format or on the engine that runs the server; the
  handlers take it from an \<open>engine\<close>. A theorem is proved for every engine, or for
  every engine with the property its hypotheses name.
  \<^item> \<open>coerce\<close> is ToNumber on a string or an array (the string-to-number grammar, for an
    array after joining its elements); \<open>None\<close> is a TypeError raised on the way.
  \<^item> \<open>to_double\<close> gives the Number value of a rational: the nearest double, an infinity
    beyond the largest.
  \<^item> \<open>trim_start\<close> removes the leading white space (and line terminators) of a string.
  \<^item> \<open>toLowerCase\<close> is \<^verbatim>\<open>String.prototype.toLowerCase\<close>.
  \<^item> \<open>max_spread\<close> is the largest number of arguments a spread call can pass;
    with more, the call raises a RangeError.
\<close>

record engine =
  coerce :: "json \<Rightarrow> jsnum option"
  to_double :: "rat \<Rightarrow> jsnum"
  trim_start :: "string \<Rightarrow> string"
  toLowerCase :: "string \<Rightarrow> string"
  max_spread :: nat

section \<open>JavaScript primitives the handlers use\<close>

text \<open>Truthiness of a property read; \<open>None\<close> is \<^verbatim>\<open>undefined\<close>.\<close>

fun truthy :: "json option \<Rightarrow> bool" where
  "truthy None = False"
| "truthy (Some JNull) = False"
| "truthy (Some (JBool b)) = b"
| "truthy (Some (JNum n)) = (n \<noteq> 0)"
| "truthy (Some (JStr s)) = (s \<noteq> [])"
| "truthy (Some (JArr xs)) = True"
| "truthy (Some (JObj m)) = True"

text \<open>\<^verbatim>\<open>v === n\<close> for a property read \<open>v\<close> and a number \<open>n\<close>: true only when \<open>v\<close> is a
  number equal to \<open>n\<close>, and never for \<^verbatim>\<open>NaN\<close>.\<close>

fun strict_eq_num :: "json option \<Rightarrow> jsnum \<Rightarrow> bool" where
  "strict_eq_num (Some (JNum a)) (Num b) = (a = b)"
| "strict_eq_num _ _ = False"

text \<open>\<^verbatim>\<open>v === s\<close> for a property read \<open>v\<close> and a string \<open>s\<close>.\<close>

fun strict_eq_str :: "json option \<Rightarrow> string \<Rightarrow> bool" where
  "strict_eq_str (Some (JStr a)) b = (a = b)"
| "strict_eq_str _ _ = False"

subsection \<open>parseInt\<close>

text \<open>\<^verbatim>\<open>parseInt(s)\<close> with no radix: leading white space is dropped, then one sign, then
  a \<^verbatim>\<open>0x\<close> or \<^verbatim>\<open>0X\<close> prefix selects radix 16 (radix 10 otherwise); the longest run of
  digits of that radix is read, and whatever follows it is ignored. An empty run gives
  \<^verbatim>\<open>NaN\<close>; otherwise the result is the Number value of the signed integer.\<close>

definition digit_of :: "nat \<Rightarrow> char \<Rightarrow> nat option" where
  "digit_of R c =
     (let n = of_char c :: nat;
          d = (if 48 \<le> n \<and> n \<le> 57 then Some (n - 48)
               else if 97 \<le> n \<and> n \<le> 122 then Some (n - 87)
               else if 65 \<le> n \<and> n \<le> 90 then Some (n - 55)
               else None)
      in case d of None \<Rightarrow> None | Some v \<Rightarrow> if v < R then Some v else None)"

definition is_digit :: "nat \<Rightarrow> char \<Rightarrow> bool" where
  "is_digit R c = (digit_of R c \<noteq> None)"

fun digits_value :: "nat \<Rightarrow> nat \<Rightarrow> string \<Rightarrow> nat" where
  "digits_value R acc [] = acc"
| "digits_value R acc (c # cs) =
     digits_value R (acc * R + (case digit_of R c of None \<Rightarrow> 0 | Some v \<Rightarrow> v)) cs"

fun strip_sign :: "string \<Rightarrow> int \<times> string" where
  "strip_sign [] = (1, [])"
| "strip_sign (c # cs) =
     (if c = CHR ''-'' then (- 1, cs) else if c = CHR ''+'' then (1, cs) else (1, c # cs))"

fun strip_prefix :: "string \<Rightarrow> nat \<times> string" where
  "strip_prefix (a # b # cs) =
     (if a = CHR ''0'' \<and> (b = CHR ''x'' \<or> b = CHR ''X'') then (16, cs) else (10, a # b # cs))"
| "strip_prefix s = (10, s)"

text \<open>The run of digits \<^verbatim>\<open>parseInt\<close> reads, with its sign and radix.\<close>

definition digit_run :: "engine \<Rightarrow> string \<Rightarrow> int \<times> nat \<times> string" where
  "digit_run E input =
     (let (sign, s) = strip_sign (trim_start E input);
          (R, s') = strip_prefix s
      in (sign, R, takeWhile (is_digit R) s'))"

definition parseInt :: "engine \<Rightarrow> string \<Rightarrow> jsnum" where
  "parseInt E input =
     (let (sign, R, Z) = digit_run E input
      in if Z = [] then NaN else to_double E (of_int (sign * int (digits_value R 0 Z))))"

subsection \<open>Strings\<close>

text \<open>\<^verbatim>\<open>hay.includes(needle)\<close>: \<open>needle\<close> occurs in \<open>hay\<close> as a contiguous run.\<close>

fun str_includes :: "string \<Rightarrow> string \<Rightarrow> bool" where
  "str_includes [] needle = (needle = [])"
| "str_includes (c # cs) needle = (prefix needle (c # cs) \<or> str_includes cs needle)"

subsection \<open>Math.max and the coercion of its arguments\<close>

text \<open>\<^verbatim>\<open>Math.max\<close> coerces every argument with ToNumber, in order. A stored id is a JSON
  value, or \<^verbatim>\<open>undefined\<close> when the item has none. An object is first made primitive:
  its \<^verbatim>\<open>valueOf\<close> gives no primitive, and its \<^verbatim>\<open>toString\<close> is the inherited one, which
  gives a string that is no number, unless the object has a property \<open>toString\<close> of its
  own; that property is a JSON value and cannot be called, and the coercion raises a
  TypeError (\<open>None\<close>).\<close>

fun ToNumber :: "engine \<Rightarrow> json option \<Rightarrow> jsnum option" where
  "ToNumber E None = Some NaN"
| "ToNumber E (Some JNull) = Some (Num 0)"
| "ToNumber E (Some (JBool b)) = Some (Num (if b then 1 else 0))"
| "ToNumber E (Some (JNum n)) = Some (Num n)"
| "ToNumber E (Some (JObj m)) = (if m ''toString'' = None then Some NaN else None)"
| "ToNumber E (Some v) = coerce E v"

text \<open>The larger of two numbers as \<^verbatim>\<open>Math.max\<close> has it: \<^verbatim>\<open>NaN\<close> if either is.\<close>

fun js_max :: "jsnum \<Rightarrow> jsnum \<Rightarrow> jsnum" where
  "js_max NaN b = NaN"
| "js_max a NaN = NaN"
| "js_max PosInf b = PosInf"
| "js_max a PosInf = PosInf"
| "js_max NegInf b = b"
| "js_max a NegInf = a"
| "js_max (Num a) (Num b) = Num (max a b)"

text \<open>\<^verbatim>\<open>Math.max(...args)\<close> for at least one argument.\<close>

definition Math_max :: "engine \<Rightarrow> json option \<Rightarrow> json option list \<Rightarrow> jsnum option" where
  "Math_max E a as =
     (case ToNumber E a of
        None \<Rightarrow> None
      | Some n \<Rightarrow>
          (case those (map (ToNumber E) as) of
             None \<Rightarrow> None
           | Some ns \<Rightarrow> Some (fold js_max ns n)))"

text \<open>\<^verbatim>\<open>m + 1\<close> on numbers: the sum is rounded to a double.\<close>

fun js_add1 :: "engine \<Rightarrow> jsnum \<Rightarrow> jsnum" where
  "js_add1 E (Num a) = to_double E (a + 1)"
| "js_add1 E m = m"

text \<open>A computed number as it is serialised to the file and to the response:
  \<^verbatim>\<open>JSON.stringify\<close> writes \<^verbatim>\<open>NaN\<close> and the infinities as \<^verbatim>\<open>null\<close>.\<close>

fun num_to_json :: "jsnum \<Rightarrow> json" where
  "num_to_json (Num a) = JNum a"
| "num_to_json m = JNull"

section \<open>The handlers\<close>

text \<open>The expression \<^verbatim>\<open>items.length > 0 ? Math.max(...items.map(i => i.id)) + 1 : 1\<close>
  of the POST handler; \<open>None\<close> when it raises: a RangeError when the collection has more
  items than a spread call can pass, a TypeError from a coercion.\<close>

definition nextId :: "engine \<Rightarrow> store \<Rightarrow> json option" where
  "nextId E items =
     (case items of
        [] \<Rightarrow> Some (JNum 1)
      | i # rest \<Rightarrow>
          if max_spread E < length items then None
          else map_option (\<lambda>m. num_to_json (js_add1 E m))
                 (Math_max E (i ''id'') (map (\<lambda>i. i ''id'') rest)))"

text \<open>POST /api/items. The new object is \<^verbatim>\<open>{ id: ..., ...req.body, lastUpdated: now }\<close>:
  the computed id is written first, the properties of the body are spread over it, and
  \<open>lastUpdated\<close> is written last.\<close>

definition post_item :: "engine \<Rightarrow> string \<Rightarrow> obj \<Rightarrow> store \<Rightarrow> (error + obj) \<times> store" where
  "post_item E now body items =
     (case nextId E items of
        None \<Rightarrow> (Inl ServerError, items)
      | Some new_id \<Rightarrow>
          (let newItem = ([''id'' \<mapsto> new_id] ++ body)(''lastUpdated'' \<mapsto> JStr now)
           in if \<not> truthy (newItem ''productName'') \<or> \<not> truthy (newItem ''sku'')
                 \<or> newItem ''quantity'' = None \<or> newItem ''price'' = None
              then (Inl ValidationError, items)
              else (Inr newItem, items @ [newItem])))"

text \<open>\<^verbatim>\<open>items.findIndex(p)\<close>; \<open>None\<close> is the source's \<open>-1\<close>.\<close>

fun findIndex :: "('a \<Rightarrow> bool) \<Rightarrow> 'a list \<Rightarrow> nat option" where
  "findIndex p [] = None"
| "findIndex p (x # xs) = (if p x then Some 0 else map_option Suc (findIndex p xs))"

text \<open>GET /api/items/:id.\<close>

definition get_item :: "engine \<Rightarrow> string \<Rightarrow> store \<Rightarrow> (error + obj) \<times> store" where
  "get_item E seg items =
     (case List.find (\<lambda>i. strict_eq_num (i ''id'') (parseInt E seg)) items of
        None \<Rightarrow> (Inl NotFound, items)
      | Some item \<Rightarrow> (Inr item, items))"

text \<open>PUT /api/items/:id. The stored object is
  \<^verbatim>\<open>{ ...items[index], ...req.body, id: items[index].id, lastUpdated: now }\<close>.\<close>

definition put_item :: "engine \<Rightarrow> string \<Rightarrow> string \<Rightarrow> obj \<Rightarrow> store \<Rightarrow> (error + obj) \<times> store" where
  "put_item E now seg body items =
     (case findIndex (\<lambda>i. strict_eq_num (i ''id'') (parseInt E seg)) items of
        None \<Rightarrow> (Inl NotFound, items)
      | Some index \<Rightarrow>
          (let old = items ! index;
               updatedItem = ((old ++ body)(''id'' := old ''id''))(''lastUpdated'' \<mapsto> JStr now)
           in (Inr updatedItem, items[index := updatedItem])))"

text \<open>DELETE /api/items/:id.\<close>

definition delete_item :: "engine \<Rightarrow> string \<Rightarrow> store \<Rightarrow> (error + unit) \<times> store" where
  "delete_item E seg items =
     (let initialLength = length items;
          items' = filter (\<lambda>i. \<not> strict_eq_num (i ''id'') (parseInt E seg)) items
      in if length items' = initialLength then (Inl NotFound, items)
         else (Inr (), items'))"

text \<open>GET /api/items. A query parameter is \<open>None\<close> when the query string does not have
  it, and a string otherwise (repeated and nested parameters are not modelled).

  \<^verbatim>\<open>v.toLowerCase().includes(term)\<close> raises a TypeError unless \<open>v\<close> is a string; the
  \<^verbatim>\<open>catch\<close> block turns it into the 500 response.\<close>

fun field_includes :: "engine \<Rightarrow> json option \<Rightarrow> string \<Rightarrow> error + bool" where
  "field_includes E (Some (JStr s)) term = Inr (str_includes (toLowerCase E s) term)"
| "field_includes E _ term = Inl ServerError"

text \<open>\<^verbatim>\<open>v && v.toLowerCase().includes(term)\<close>: a falsy \<open>v\<close> makes the operand falsy.\<close>

definition opt_field_includes :: "engine \<Rightarrow> json option \<Rightarrow> string \<Rightarrow> error + bool" where
  "opt_field_includes E v term = (if truthy v then field_includes E v term else Inr False)"

text \<open>\<^verbatim>\<open>a || b\<close> where either side may raise: \<open>b\<close> is evaluated only when \<open>a\<close> is
  false.\<close>

definition or_else :: "error + bool \<Rightarrow> error + bool \<Rightarrow> error + bool" where
  "or_else a b = (case a of Inl e \<Rightarrow> Inl e | Inr True \<Rightarrow> Inr True | Inr False \<Rightarrow> b)"

definition search_matches :: "engine \<Rightarrow> string \<Rightarrow> obj \<Rightarrow> error + bool" where
  "search_matches E term item =
     or_else (field_includes E (item ''productName'') term)
       (or_else (field_includes E (item ''sku'') term)
          (or_else (opt_field_includes E (item ''supplier'') term)
             (opt_field_includes E (item ''location'') term)))"

text \<open>\<^verbatim>\<open>items.filter(p)\<close> for a callback that may raise: the first raise ends it.\<close>

fun filter_raising :: "('a \<Rightarrow> error + bool) \<Rightarrow> 'a list \<Rightarrow> error + 'a list" where
  "filter_raising p [] = Inr []"
| "filter_raising p (x # xs) =
     (case p x of
        Inl e \<Rightarrow> Inl e
      | Inr b \<Rightarrow>
          (case filter_raising p xs of
             Inl e \<Rightarrow> Inl e
           | Inr ys \<Rightarrow> Inr (if b then x # ys else ys)))"

definition get_items :: "engine \<Rightarrow> string option \<Rightarrow> string option \<Rightarrow> store \<Rightarrow> (error + obj list) \<times> store" where
  "get_items E search category items =
     (let searched =
            (case search of
               None \<Rightarrow> Inr items
             | Some s \<Rightarrow>
                 if s = [] then Inr items
                 else filter_raising (search_matches E (toLowerCase E s)) items)
      in case searched of
           Inl e \<Rightarrow> (Inl e, items)
         | Inr found \<Rightarrow>
             (case category of
                None \<Rightarrow> (Inr found, items)
              | Some c \<Rightarrow>
                  if c = [] then (Inr found, items)
                  else (Inr (filter (\<lambda>item. strict_eq_str (item ''category'') c) found), items)))"

section \<open>Sample data\<close>

text \<open>The seed document the server writes when no data file exists (\<^verbatim>\<open>initialData\<close>).\<close>

definition laptop :: obj where
  "laptop =
     [''id'' \<mapsto> JNum 1, ''productName'' \<mapsto> JStr ''Laptop'', ''sku'' \<mapsto> JStr ''LP001'',
      ''category'' \<mapsto> JStr ''Electronics'', ''quantity'' \<mapsto> JNum 15,
      ''price'' \<mapsto> JNum (99999 / 100), ''supplier'' \<mapsto> JStr ''Tech Corp'',
      ''location'' \<mapsto> JStr ''Warehouse A'', ''lastUpdated'' \<mapsto> JStr ''2023-10-28T10:30:00Z'']"

definition deskChair :: obj where
  "deskChair =
     [''id'' \<mapsto> JNum 2, ''productName'' \<mapsto> JStr ''Desk Chair'', ''sku'' \<mapsto> JStr ''DC001'',
      ''category'' \<mapsto> JStr ''Office'', ''quantity'' \<mapsto> JNum 8,
      ''price'' \<mapsto> JNum (14999 / 100), ''supplier'' \<mapsto> JStr ''Furniture Plus'',
      ''location'' \<mapsto> JStr ''Warehouse B'', ''lastUpdated'' \<mapsto> JStr ''2023-10-27T14:45:00Z'']"

definition wirelessMouse :: obj where
  "wirelessMouse =
     [''id'' \<mapsto> JNum 3, ''productName'' \<mapsto> JStr ''Wireless Mouse'', ''sku'' \<mapsto> JStr ''WM001'',
      ''category'' \<mapsto> JStr ''Electronics'', ''quantity'' \<mapsto> JNum 3,
      ''price'' \<mapsto> JNum (2999 / 100), ''supplier'' \<mapsto> JStr ''Tech Corp'',
      ''location'' \<mapsto> JStr ''Warehouse A'', ''lastUpdated'' \<mapsto> JStr ''2023-10-29T09:15:00Z'']"

definition initialData :: store where
  "initialData = [laptop, deskChair, wirelessMouse]"

text \<open>The request body of the specification's scenario.\<close>

definition widget_fields :: obj where
  "widget_fields =
     [''productName'' \<mapsto> JStr ''Widget'', ''sku'' \<mapsto> JStr ''W1'', ''quantity'' \<mapsto> JNum 5,
      ''price'' \<mapsto> JNum (999 / 100)]"

text \<open>
  An engine for the examples. It is the language's on what the examples give it: ASCII
  strings (white space is the six ASCII codes, and lower-casing sets the bit of value 32
  in the letters \<open>A\<close> to \<open>Z\<close>), numbers whose sums with one are doubles, and collections
  of at most 65535 items. No example reaches \<open>coerce\<close>.
\<close>

definition is_ws :: "char \<Rightarrow> bool" where
  "is_ws c = (of_char c \<in> {9, 10, 11, 12, 13, 32 :: nat})"

definition lower_char :: "char \<Rightarrow> char" where
  "lower_char c =
     (let n = of_char c :: nat
      in if 65 \<le> n \<and> n \<le> 90
         then (case c of Char b0 b1 b2 b3 b4 b5 b6 b7 \<Rightarrow> Char b0 b1 b2 b3 b4 True b6 b7)
         else c)"

definition ascii_engine :: engine where
  "ascii_engine =
     \<lparr>coerce = (\<lambda>v. Some NaN), to_double = Num, trim_start = dropWhile is_ws,
      toLowerCase = map lower_char, max_spread = 65535\<rparr>"

section \<open>The List filter in the specification's words\<close>

text \<open>
  The specification describes the search as: the item's \<open>productName\<close>, \<open>sku\<close>,
  \<open>supplier\<close> or \<open>location\<close> contains the search term as a substring, letter case
  ignored, and an absent field does not match. \<open>contains_ci\<close> and \<open>search_hit\<close> say this with
  the library's \<open>sublist\<close>, letter case being ignored by lower-casing both strings; they
  are not taken from the handler, and are compared with it below. \<open>searchable\<close> is the
  shape the data model gives an item: \<open>productName\<close> and \<open>sku\<close> are strings, \<open>supplier\<close>
  and \<open>location\<close> are strings or falsy (absent, \<^verbatim>\<open>null\<close>, empty).
\<close>

definition contains_ci :: "engine \<Rightarrow> string \<Rightarrow> json option \<Rightarrow> bool" where
  "contains_ci E term v =
     (case v of Some (JStr s) \<Rightarrow> sublist (toLowerCase E term) (toLowerCase E s) | _ \<Rightarrow> False)"

definition search_hit :: "engine \<Rightarrow> string \<Rightarrow> obj \<Rightarrow> bool" where
  "search_hit E term item =
     (contains_ci E term (item ''productName'') \<or> contains_ci E term (item ''sku'') \<or>
      contains_ci E term (item ''supplier'') \<or> contains_ci E term (item ''location''))"

text \<open>The property read is a string.\<close>

fun is_str :: "json option \<Rightarrow> bool" where
  "is_str (Some (JStr s)) = True"
| "is_str _ = False"

definition searchable :: "obj \<Rightarrow> bool" where
  "searchable item =
     (is_str (item ''productName'') \<and> is_str (item ''sku'') \<and>
      (is_str (item ''supplier'') \<or> \<not> truthy (item ''supplier'')) \<and>
      (is_str (item ''location'') \<or> \<not> truthy (item ''location'')))"



section \<open>Facts about the primitives\<close>

lemmas sample_defs = initialData_def laptop_def deskChair_def wirelessMouse_def widget_fields_def

lemmas ascii_defs = ascii_engine_def is_ws_def lower_char_def

lemmas parse_defs = parseInt_def digit_run_def is_digit_def digit_of_def

lemmas handler_defs =
  post_item_def put_item_def delete_item_def get_item_def nextId_def Math_max_def

lemma strict_eq_num_Num: "strict_eq_num v (Num n) \<longleftrightarrow> v = Some (JNum n)"
  by (cases "(v, Num n)" rule: strict_eq_num.cases) auto

lemma strict_eq_num_NaN: "strict_eq_num v NaN = False"
  by (cases "(v, NaN)" rule: strict_eq_num.cases) auto

lemma findIndex_None: "findIndex p xs = None \<longleftrightarrow> (\<forall>x\<in>set xs. \<not> p x)"
  by (induction xs) auto

lemma findIndex_Some:
  "findIndex p xs = Some i \<Longrightarrow> i < length xs \<and> p (xs ! i) \<and> (\<forall>j<i. \<not> p (xs ! j))"
proof (induction xs arbitrary: i)
  case Nil
  then show ?case by simp
next
  case (Cons x xs)
  show ?case
  proof (cases "p x")
    case True
    with Cons.prems show ?thesis by simp
  next
    case False
    with Cons.prems obtain k where k: "findIndex p xs = Some k" "i = Suc k"
      by auto
    from Cons.IH [OF k(1)] False k(2) show ?thesis
      by (auto simp: less_Suc_eq_0_disj)
  qed
qed

lemma findIndex_first:
  "i < length xs \<Longrightarrow> p (xs ! i) \<Longrightarrow> \<forall>j<i. \<not> p (xs ! j) \<Longrightarrow> findIndex p xs = Some i"
proof (induction xs arbitrary: i)
  case Nil
  then show ?case by simp
next
  case (Cons x xs)
  show ?case
  proof (cases i)
    case 0
    with Cons.prems show ?thesis by simp
  next
    case (Suc k)
    with Cons.prems have "\<not> p x" by auto
    moreover from Suc Cons.prems have "findIndex p xs = Some k"
      by (intro Cons.IH) auto
    ultimately show ?thesis using Suc by simp
  qed
qed

lemma findIndex_append_first:
  "\<forall>i\<in>set pre. \<not> p i \<Longrightarrow> p x \<Longrightarrow> findIndex p (pre @ x # post) = Some (length pre)"
  by (induction pre) auto

lemma find_append_first:
  "\<forall>i\<in>set pre. \<not> p i \<Longrightarrow> p x \<Longrightarrow> List.find p (pre @ x # post) = Some x"
  by (induction pre) auto

lemma filter_same_length: "length (filter p xs) = length xs \<Longrightarrow> filter p xs = xs"
  by (metis filter_True length_filter_less linorder_not_le order.refl)

subsection \<open>The next id\<close>

text \<open>
  When every stored id is a number and the collection is not too long for a spread call,
  nothing raises and the next id is the double nearest to the largest stored id plus one.
  The computation raises when the collection is too long, and when a stored id is an
  object with a \<open>toString\<close> property of its own.
  Where that sum is itself a double, as for integer ids below \<open>2^53\<close>, a Create whose body
  has no \<open>id\<close> gets an id that no stored item has. A body that has an \<open>id\<close> keeps it
  (\<open>post_item_id_from_body\<close>).
\<close>

lemma those_map_Some: "those (map (\<lambda>x. Some (f x)) xs) = Some (map f xs)"
  by (induction xs) auto

lemma fold_js_max_Num: "fold js_max (map Num ns) (Num n) = Num (fold max ns n)"
  by (induction ns arbitrary: n) (auto simp: max.commute)

lemma nextId_numeric:
  assumes ids: "map (\<lambda>i. i ''id'') items = map (\<lambda>n. Some (JNum n)) ns"
    and ne: "items \<noteq> []"
    and len: "length items \<le> max_spread E"
  shows "nextId E items = Some (num_to_json (to_double E (Max (set ns) + 1)))"
proof -
  from ne obtain i rest where items: "items = i # rest"
    by (cases items) auto
  with ids obtain n ns' where ns: "ns = n # ns'" "i ''id'' = Some (JNum n)"
    "map (\<lambda>i. i ''id'') rest = map (\<lambda>n. Some (JNum n)) ns'"
    by (cases ns) auto
  have "map (ToNumber E) (map (\<lambda>i. i ''id'') rest) = map (\<lambda>n. Some (Num n)) ns'"
    unfolding ns(3) by simp
  then have "those (map (ToNumber E) (map (\<lambda>i. i ''id'') rest)) = Some (map Num ns')"
    by (simp add: those_map_Some)
  then have "Math_max E (i ''id'') (map (\<lambda>i. i ''id'') rest) = Some (Num (fold max ns' n))"
    by (simp add: Math_max_def ns(2) fold_js_max_Num)
  moreover have "fold max ns' n = Max (set ns)"
    unfolding ns(1) using Max.set_eq_fold [of n ns'] by simp
  moreover have "\<not> max_spread E < length (i # rest)"
    using len items by simp
  ultimately show ?thesis
    unfolding nextId_def items by simp
qed

lemma nextId_long: "max_spread E < length items \<Longrightarrow> nextId E items = None"
  by (cases items) (simp_all add: nextId_def)

lemma nextId_unprintable:
  assumes "i \<in> set items" and "i ''id'' = Some (JObj m)" and "m ''toString'' \<noteq> None"
  shows "nextId E items = None"
proof -
  have t: "those (map (ToNumber E) vs) = None" if "Some (JObj m) \<in> set vs" for vs
    using that assms(3) by (induction vs) (auto split: option.splits)
  from assms(1) obtain x rest where items: "items = x # rest"
    by (cases items) auto
  show ?thesis
  proof (cases "x = i")
    case True
    with assms(2,3) have "ToNumber E (x ''id'') = None"
      by auto
    then show ?thesis
      by (simp add: nextId_def items Math_max_def)
  next
    case False
    with assms(1) items have "i \<in> set rest"
      by auto
    then have "i ''id'' \<in> set (map (\<lambda>i. i ''id'') rest)"
      by simp
    then have "Some (JObj m) \<in> set (map (\<lambda>i. i ''id'') rest)"
      by (simp only: assms(2))
    from t [OF this] show ?thesis
      by (simp add: nextId_def items Math_max_def split: option.splits)
  qed
qed

lemma post_item_fresh_id:
  assumes ids: "map (\<lambda>i. i ''id'') items = map (\<lambda>n. Some (JNum n)) ns"
    and exact: "ns \<noteq> [] \<longrightarrow> to_double E (Max (set ns) + 1) = Num (Max (set ns) + 1)"
    and no_id: "body ''id'' = None"
    and ok: "post_item E now body items = (Inr r, items')"
  shows "r ''id'' = Some (JNum (if ns = [] then 1 else Max (set ns) + 1)) \<and>
         (\<forall>i\<in>set items. i ''id'' \<noteq> r ''id'')"
proof (cases "items = []")
  case True
  with ids have "ns = []" by simp
  with True ok no_id show ?thesis
    by (auto simp: post_item_def nextId_def Let_def map_add_def split: if_splits)
next
  case False
  with ids have ns: "ns \<noteq> []" by auto
  have len: "length items \<le> max_spread E"
  proof (rule ccontr)
    assume "\<not> length items \<le> max_spread E"
    then have "nextId E items = None"
      by (simp add: nextId_long)
    with ok show False
      by (simp add: post_item_def)
  qed
  from nextId_numeric [OF ids False len] exact ns
  have "nextId E items = Some (JNum (Max (set ns) + 1))"
    by simp
  with ok no_id have r: "r ''id'' = Some (JNum (Max (set ns) + 1))"
    by (auto simp: post_item_def Let_def map_add_def split: if_splits)
  have "i ''id'' \<noteq> r ''id''" if "i \<in> set items" for i
  proof -
    from that have "i ''id'' \<in> set (map (\<lambda>i. i ''id'') items)" by simp
    then obtain n where n: "n \<in> set ns" "i ''id'' = Some (JNum n)"
      unfolding ids by auto
    then have "n \<le> Max (set ns)" by simp
    then have "n \<noteq> Max (set ns) + 1" by simp
    with n r show ?thesis by simp
  qed
  with r ns show ?thesis by simp
qed

lemma post_item_id_from_body:
  assumes "body ''id'' = Some v" and "post_item E now body items = (Inr r, items')"
  shows "r ''id'' = Some v"
  using assms by (auto simp: post_item_def Let_def map_add_def split: option.splits if_splits)

subsection \<open>Path segments that are no number\<close>

text \<open>\<^verbatim>\<open>parseInt\<close> gives \<^verbatim>\<open>NaN\<close> when the run of digits is empty, and only then
  (\<open>to_double\<close> never gives \<^verbatim>\<open>NaN\<close>). The run is empty in every segment that has no
  decimal digit, since trimming leaves a part of the segment.\<close>

lemma parseInt_NaN_iff:
  assumes "\<forall>q. to_double E q \<noteq> NaN"
  shows "parseInt E seg = NaN \<longleftrightarrow> snd (snd (digit_run E seg)) = []"
  using assms by (cases "digit_run E seg") (simp add: parseInt_def)

lemma strip_sign_subset: "set (snd (strip_sign xs)) \<subseteq> set xs"
  by (cases xs) auto

lemma no_digit_not_numeric:
  assumes "\<forall>c\<in>set seg. \<not> is_digit 10 c"
    and trim: "set (trim_start E seg) \<subseteq> set seg"
  shows "parseInt E seg = NaN"
proof -
  obtain sign s where ss: "strip_sign (trim_start E seg) = (sign, s)"
    by (cases "strip_sign (trim_start E seg)")
  have "set s \<subseteq> set (trim_start E seg)"
    using strip_sign_subset [of "trim_start E seg"] ss by simp
  with trim have s: "\<forall>c\<in>set s. \<not> is_digit 10 c"
    using assms(1) by blast
  have z: "is_digit 10 CHR ''0''"
    by (simp add: is_digit_def digit_of_def)
  have sp: "strip_prefix s = (10, s)"
    using s z by (cases s rule: strip_prefix.cases) auto
  have "takeWhile (is_digit 10) s = []"
    using s by (cases s) auto
  with ss sp show ?thesis
    by (simp add: parseInt_def digit_run_def)
qed

subsection \<open>The search callback on items of the data model's shape\<close>

lemma str_includes_sublist: "str_includes hay needle \<longleftrightarrow> sublist needle hay"
  by (induction hay) (auto simp: sublist_Cons_right)

lemma filter_raising_total:
  "\<forall>x\<in>set xs. p x = Inr (q x) \<Longrightarrow> filter_raising p xs = Inr (filter q xs)"
  by (induction xs) auto

lemma is_str_iff: "is_str v \<longleftrightarrow> (\<exists>s. v = Some (JStr s))"
  by (cases v rule: is_str.cases) auto

lemma field_includes_str:
  "is_str v \<Longrightarrow> field_includes E v (toLowerCase E t) = Inr (contains_ci E t v)"
  by (auto simp: is_str_iff contains_ci_def str_includes_sublist)

lemma opt_field_includes_str:
  assumes lower: "\<forall>s. toLowerCase E s = [] \<longleftrightarrow> s = []"
    and "t \<noteq> []" and "is_str v \<or> \<not> truthy v"
  shows "opt_field_includes E v (toLowerCase E t) = Inr (contains_ci E t v)"
proof (cases "truthy v")
  case True
  with assms(3) have "is_str v" by blast
  with True show ?thesis
    by (simp add: opt_field_includes_def field_includes_str)
next
  case False
  have "\<not> contains_ci E t v"
  proof (cases v rule: truthy.cases)
    case (5 s)
    with False have "s = []" by simp
    moreover from lower have "toLowerCase E [] = []" by simp
    moreover from lower assms(2) have "toLowerCase E t \<noteq> []" by simp
    ultimately show ?thesis
      using 5 by (simp add: contains_ci_def)
  qed (simp_all add: contains_ci_def)
  with False show ?thesis
    by (simp add: opt_field_includes_def)
qed

lemma search_matches_searchable:
  assumes "\<forall>s. toLowerCase E s = [] \<longleftrightarrow> s = []" and "t \<noteq> []" and "searchable item"
  shows "search_matches E (toLowerCase E t) item = Inr (search_hit E t item)"
  using assms
  by (auto simp: search_matches_def searchable_def field_includes_str opt_field_includes_str
      or_else_def search_hit_def split: bool.splits)

lemma ascii_lower_empty: "toLowerCase ascii_engine s = [] \<longleftrightarrow> s = []"
  by (simp add: ascii_engine_def)

section \<open>Create\<close>

text \<open>
  Claim C1. The id of a created record is to be the Store's: the largest stored id plus
  one, or 1 in the empty collection, and never the request body's. The handler writes
  the computed id first and spreads the body over it, so a body that carries an \<open>id\<close>
  replaces the computed one: in the empty collection, the scenario's body with
  \<open>id: 7\<close> added is stored and returned with id 7, where the claim says 1.
\<close>

theorem post_item_id_taken_from_body:
  "\<exists>r. post_item E now (widget_fields(''id'' \<mapsto> JNum 7)) [] = (Inr r, [r]) \<and>
       r ''id'' = Some (JNum 7)"
  by (simp add: post_item_def nextId_def widget_fields_def Let_def)

theorem post_item_id_taken_from_body_witness:
  "\<exists>r. post_item ascii_engine ''2024-05-01T12:00:00.000Z'' (widget_fields(''id'' \<mapsto> JNum 7)) []
         = (Inr r, [r]) \<and>
       r ''id'' = Some (JNum 7)"
  by (rule post_item_id_taken_from_body)

text \<open>
  Claim C2. The ids of the records of successive Creates are to be pairwise distinct.
  Two Creates in a row whose bodies both carry \<open>id: 5\<close>, starting from the empty
  collection, both succeed, and both records are stored with id 5. This is so on every
  engine whose spread calls can pass one argument.
\<close>

theorem post_item_twice_same_id:
  assumes "1 \<le> max_spread E"
  shows "\<exists>r1 r2. post_item E t1 (widget_fields(''id'' \<mapsto> JNum 5)) [] = (Inr r1, [r1]) \<and>
           post_item E t2 (widget_fields(''id'' \<mapsto> JNum 5)) [r1] = (Inr r2, [r1, r2]) \<and>
           r1 ''id'' = Some (JNum 5) \<and> r2 ''id'' = Some (JNum 5)"
proof -
  let ?b = "widget_fields(''id'' \<mapsto> JNum 5)"
  let ?r1 = "([''id'' \<mapsto> JNum 1] ++ ?b)(''lastUpdated'' \<mapsto> JStr t1)"
  have 1: "post_item E t1 ?b [] = (Inr ?r1, [?r1])"
    by (simp add: post_item_def nextId_def widget_fields_def Let_def)
  have "nextId E [?r1] = Some (num_to_json (to_double E 6))"
    using assms by (simp add: nextId_def Math_max_def)
  then obtain new_id where n: "nextId E [?r1] = Some new_id"
    by simp
  let ?r2 = "([''id'' \<mapsto> new_id] ++ ?b)(''lastUpdated'' \<mapsto> JStr t2)"
  have 2: "post_item E t2 ?b [?r1] = (Inr ?r2, [?r1, ?r2])"
    unfolding post_item_def n by (simp add: widget_fields_def Let_def)
  have "?r1 ''id'' = Some (JNum 5)" "?r2 ''id'' = Some (JNum 5)"
    by simp_all
  with 1 2 show ?thesis by blast
qed

theorem post_item_twice_same_id_witness:
  "1 \<le> max_spread ascii_engine \<and>
   (\<exists>r1 r2. post_item ascii_engine ''2024-05-01T12:00:00.000Z'' (widget_fields(''id'' \<mapsto> JNum 5)) []
             = (Inr r1, [r1]) \<and>
           post_item ascii_engine ''2024-05-01T12:00:01.000Z'' (widget_fields(''id'' \<mapsto> JNum 5)) [r1]
             = (Inr r2, [r1, r2]) \<and>
           r1 ''id'' = Some (JNum 5) \<and> r2 ''id'' = Some (JNum 5))"
proof -
  have h: "1 \<le> max_spread ascii_engine"
    by (simp add: ascii_engine_def)
  from h post_item_twice_same_id [OF h] show ?thesis
    by blast
qed




text \<open>
  Claim C9. A Get with the id a Create returned is to return the created record. On the
  seed collection, a Create whose body carries \<open>id: 1\<close> succeeds and returns a record with
  id 1; the Get of \<open>1\<close> that follows returns the seed's laptop, the first item with that
  id, and not the created record. This is so on every engine whose spread calls can pass
  the seed's three ids and on which \<^verbatim>\<open>parseInt\<close> reads \<open>1\<close> as 1.
\<close>

theorem get_after_post_finds_older_item:
  assumes "3 \<le> max_spread E" and "parseInt E ''1'' = Num 1"
  shows "\<exists>r. post_item E now (widget_fields(''id'' \<mapsto> JNum 1)) initialData
         = (Inr r, initialData @ [r]) \<and>
       r ''id'' = Some (JNum 1) \<and>
       get_item E ''1'' (initialData @ [r]) = (Inr laptop, initialData @ [r]) \<and>
       laptop ''sku'' = Some (JStr ''LP001'') \<and> r ''sku'' = Some (JStr ''W1'')"
proof -
  let ?b = "widget_fields(''id'' \<mapsto> JNum 1)"
  have "nextId E initialData = Some (num_to_json (to_double E 4))"
    using assms(1) by (simp add: nextId_def Math_max_def sample_defs)
  then obtain new_id where n: "nextId E initialData = Some new_id"
    by simp
  let ?r = "([''id'' \<mapsto> new_id] ++ ?b)(''lastUpdated'' \<mapsto> JStr now)"
  have p: "post_item E now ?b initialData = (Inr ?r, initialData @ [?r])"
    unfolding post_item_def n by (simp add: widget_fields_def Let_def)
  have g: "get_item E ''1'' (initialData @ [?r]) = (Inr laptop, initialData @ [?r])"
    unfolding get_item_def assms(2) by (simp add: initialData_def) (simp add: laptop_def)
  have "?r ''id'' = Some (JNum 1)" "?r ''sku'' = Some (JStr ''W1'')"
    "laptop ''sku'' = Some (JStr ''LP001'')"
    by (simp_all add: widget_fields_def laptop_def)
  with p g show ?thesis by blast
qed

theorem get_after_post_finds_older_item_witness:
  "3 \<le> max_spread ascii_engine \<and> parseInt ascii_engine ''1'' = Num 1 \<and>
   (\<exists>r. post_item ascii_engine ''2024-05-01T12:00:00.000Z'' (widget_fields(''id'' \<mapsto> JNum 1)) initialData
         = (Inr r, initialData @ [r]) \<and>
       r ''id'' = Some (JNum 1) \<and>
       get_item ascii_engine ''1'' (initialData @ [r]) = (Inr laptop, initialData @ [r]) \<and>
       laptop ''sku'' = Some (JStr ''LP001'') \<and> r ''sku'' = Some (JStr ''W1''))"
proof -
  have h: "3 \<le> max_spread ascii_engine"
    by (simp add: ascii_engine_def)
  have seg: "parseInt ascii_engine ''1'' = Num 1"
    by (simp add: parse_defs ascii_defs)
  from h seg get_after_post_finds_older_item [OF h seg] show ?thesis
    by blast
qed

section \<open>Update\<close>

text \<open>
  Claim C3. An Update whose path id parses to \<open>n\<close>, on a collection whose first item with
  id \<open>n\<close> is at position \<open>index\<close>, succeeds; the record it returns is the one it stores
  at that position; its id is the stored item's id whatever the payload says, its
  \<open>lastUpdated\<close> is the current time, and every other property is the payload's where
  the payload has it and the stored item's otherwise.
\<close>

theorem put_item_merge:
  assumes seg: "parseInt E seg = Num n"
    and index: "index < length items"
    and found: "(items ! index) ''id'' = Some (JNum n)"
    and first: "\<forall>j<index. (items ! j) ''id'' \<noteq> Some (JNum n)"
  shows "\<exists>r. put_item E now seg body items = (Inr r, items[index := r]) \<and>
           r ''id'' = (items ! index) ''id'' \<and>
           r ''lastUpdated'' = Some (JStr now) \<and>
           (\<forall>k. k \<noteq> ''id'' \<and> k \<noteq> ''lastUpdated'' \<longrightarrow>
              r k = (case body k of Some v \<Rightarrow> Some v | None \<Rightarrow> (items ! index) k))"
proof -
  have "findIndex (\<lambda>i. strict_eq_num (i ''id'') (parseInt E seg)) items = Some index"
    using index found first by (intro findIndex_first) (simp_all add: seg strict_eq_num_Num)
  then show ?thesis
    by (simp add: put_item_def Let_def map_add_def split: option.splits)
qed

theorem put_item_merge_witness:
  "\<exists>r. put_item ascii_engine ''2024-05-01T12:00:00.000Z'' ''2''
          [''id'' \<mapsto> JNum 99, ''quantity'' \<mapsto> JNum 7] initialData
          = (Inr r, initialData[1 := r]) \<and>
       r ''id'' = Some (JNum 2) \<and>
       r ''lastUpdated'' = Some (JStr ''2024-05-01T12:00:00.000Z'') \<and>
       r ''quantity'' = Some (JNum 7) \<and>
       r ''sku'' = Some (JStr ''DC001'')"
proof -
  have seg: "parseInt ascii_engine ''2'' = Num 2"
    by (simp add: parse_defs ascii_defs)
  have index: "1 < length initialData"
    by (simp add: initialData_def)
  have found: "(initialData ! 1) ''id'' = Some (JNum 2)"
    by (simp add: sample_defs)
  have first: "\<forall>j<1. (initialData ! j) ''id'' \<noteq> Some (JNum 2)"
    by (simp add: sample_defs)
  from put_item_merge [OF seg index found first,
      of "''2024-05-01T12:00:00.000Z''" "[''id'' \<mapsto> JNum 99, ''quantity'' \<mapsto> JNum 7]"]
  obtain r where r: "put_item ascii_engine ''2024-05-01T12:00:00.000Z'' ''2''
          [''id'' \<mapsto> JNum 99, ''quantity'' \<mapsto> JNum 7] initialData
          = (Inr r, initialData[1 := r])"
     "r ''id'' = (initialData ! 1) ''id''"
     "r ''lastUpdated'' = Some (JStr ''2024-05-01T12:00:00.000Z'')"
     "\<forall>k. k \<noteq> ''id'' \<and> k \<noteq> ''lastUpdated'' \<longrightarrow>
              r k = (case [''id'' \<mapsto> JNum 99, ''quantity'' \<mapsto> JNum 7] k of Some v \<Rightarrow> Some v | None \<Rightarrow> (initialData ! 1) k)"
    by blast
  from r(4) have "r ''quantity'' = Some (JNum 7)" "r ''sku'' = Some (JStr ''DC001'')"
    by (simp_all add: sample_defs)
  with r(1,2,3) found show ?thesis
    by auto
qed

section \<open>List\<close>

text \<open>
  Claim C5, as amended. On a collection of searchable items, List keeps, in storage order,
  the items that the search hits when a search is given and is not the empty string, and
  of those the items whose category is exactly the given one when a category is given and
  is not the empty string; an empty search or category string filters nothing. The
  answer is always a sequence, the empty one when nothing is kept. Letter case is ignored
  as the handler ignores it, by lower-casing the term and the field; of the engine's
  lower-casing the proof uses only that it gives the empty string for the empty string
  alone.
\<close>

theorem get_items_filters:
  assumes lower: "\<forall>s. toLowerCase E s = [] \<longleftrightarrow> s = []"
    and shape: "(\<exists>s. search = Some s \<and> s \<noteq> []) \<longrightarrow> (\<forall>i\<in>set items. searchable i)"
  shows "get_items E search category items =
     (Inr (filter (\<lambda>i. case category of None \<Rightarrow> True
                        | Some c \<Rightarrow> c = [] \<or> i ''category'' = Some (JStr c))
            (filter (\<lambda>i. case search of None \<Rightarrow> True
                          | Some s \<Rightarrow> s = [] \<or> search_hit E s i) items)),
      items)"
proof -
  let ?found = "filter (\<lambda>i. case search of None \<Rightarrow> True
                          | Some s \<Rightarrow> s = [] \<or> search_hit E s i) items"
  have s: "(case search of
               None \<Rightarrow> Inr items
             | Some s \<Rightarrow>
                 if s = [] then Inr items
                 else filter_raising (search_matches E (toLowerCase E s)) items) = Inr ?found"
  proof (cases search)
    case None
    then show ?thesis by simp
  next
    case (Some t)
    show ?thesis
    proof (cases "t = []")
      case True
      with Some show ?thesis by simp
    next
      case False
      with Some shape have "\<forall>i\<in>set items. searchable i"
        by simp
      with False lower
      have "\<forall>i\<in>set items. search_matches E (toLowerCase E t) i = Inr (search_hit E t i)"
        by (simp add: search_matches_searchable)
      from filter_raising_total [OF this] Some False show ?thesis by simp
    qed
  qed
  have c: "strict_eq_str v c \<longleftrightarrow> v = Some (JStr c)" for v c
    by (cases "(v, c)" rule: strict_eq_str.cases) auto
  show ?thesis
    unfolding get_items_def Let_def s
    by (cases category) (auto simp: c)
qed

theorem get_items_filters_witness:
  "list_all searchable initialData \<and>
   get_items ascii_engine (Some ''MOUSE'') (Some ''Electronics'') initialData
     = (Inr [wirelessMouse], initialData) \<and>
   get_items ascii_engine (Some ''tech'') (Some '''') initialData
     = (Inr [laptop, wirelessMouse], initialData) \<and>
   get_items ascii_engine (Some '''') (Some ''Office'') initialData
     = (Inr [deskChair], initialData) \<and>
   get_items ascii_engine None (Some ''electronics'') initialData = (Inr [], initialData)"
proof -
  have lower: "\<forall>s. toLowerCase ascii_engine s = [] \<longleftrightarrow> s = []"
    by (simp add: ascii_lower_empty)
  have se: "\<forall>i\<in>set initialData. searchable i"
    by (simp add: searchable_def sample_defs)
  then have h: "(\<exists>s. search = Some s \<and> s \<noteq> []) \<longrightarrow> (\<forall>i\<in>set initialData. searchable i)"
    for search :: "string option"
    by simp
  have "get_items ascii_engine (Some ''MOUSE'') (Some ''Electronics'') initialData
     = (Inr [wirelessMouse], initialData)"
    using get_items_filters [OF lower h, of "Some ''MOUSE''" "Some ''Electronics''"]
    by (simp add: search_hit_def contains_ci_def sample_defs ascii_defs sublist_code)
  moreover have "get_items ascii_engine (Some ''tech'') (Some '''') initialData
     = (Inr [laptop, wirelessMouse], initialData)"
    using get_items_filters [OF lower h, of "Some ''tech''" "Some ''''"]
    by (simp add: search_hit_def contains_ci_def sample_defs ascii_defs sublist_code)
  moreover have "get_items ascii_engine (Some '''') (Some ''Office'') initialData
     = (Inr [deskChair], initialData)"
    using get_items_filters [OF lower h, of "Some ''''" "Some ''Office''"]
    by (simp add: sample_defs)
  moreover have "get_items ascii_engine None (Some ''electronics'') initialData
     = (Inr [], initialData)"
    using get_items_filters [OF lower h, of None "Some ''electronics''"]
    by (simp add: sample_defs)
  moreover from se have "list_all searchable initialData"
    by (simp add: list_all_iff)
  ultimately show ?thesis
    by blast
qed

text \<open>
  The claim as it stands has every given category filter: with \<^verbatim>\<open>?category=\<close> (the
  empty string) the handler's guard \<^verbatim>\<open>if (category)\<close> is false and the whole seed
  collection comes back, although no seed item has the empty category.
\<close>

theorem get_items_empty_category_counterexample:
  "fst (get_items ascii_engine None (Some '''') initialData)
     \<noteq> Inr (filter (\<lambda>i. i ''category'' = Some (JStr '''')) initialData)"
  by (simp add: get_items_def sample_defs)

section \<open>Path ids that are not numbers\<close>

text \<open>
  Claim C6, as amended. A path segment that \<^verbatim>\<open>parseInt\<close> reads as no number makes Get,
  Update and Delete answer NotFound, as a lookup that finds nothing does, and the
  collection stays as it was. \<^verbatim>\<open>parseInt\<close> gives \<^verbatim>\<open>NaN\<close> exactly when the run of digits
  it reads is empty (\<open>parseInt_NaN_iff\<close>): what follows the leading white space and one
  sign does not start with a decimal digit, or starts with \<^verbatim>\<open>0x\<close> or \<^verbatim>\<open>0X\<close> and no
  hexadecimal digit comes next.
\<close>

theorem non_numeric_segment_not_found:
  assumes "parseInt E seg = NaN"
  shows "get_item E seg items = (Inl NotFound, items) \<and>
         put_item E now seg body items = (Inl NotFound, items) \<and>
         delete_item E seg items = (Inl NotFound, items)"
proof -
  have f: "List.find (\<lambda>i. strict_eq_num (i ''id'') (parseInt E seg)) items = None"
    by (simp add: assms strict_eq_num_NaN find_None_iff)
  have fi: "findIndex (\<lambda>i. strict_eq_num (i ''id'') (parseInt E seg)) items = None"
    by (simp add: assms strict_eq_num_NaN findIndex_None)
  show ?thesis
    by (simp add: get_item_def put_item_def delete_item_def f fi)
      (simp add: assms strict_eq_num_NaN)
qed

theorem non_numeric_segment_not_found_witness:
  "parseInt ascii_engine ''abc'' = NaN \<and>
   get_item ascii_engine ''abc'' initialData = (Inl NotFound, initialData) \<and>
   put_item ascii_engine ''t'' ''abc'' widget_fields initialData = (Inl NotFound, initialData) \<and>
   delete_item ascii_engine ''abc'' initialData = (Inl NotFound, initialData) \<and>
   parseInt ascii_engine ''0xg'' = NaN \<and>
   get_item ascii_engine ''0xg'' [laptop(''id'' \<mapsto> JNum 0)]
     = (Inl NotFound, [laptop(''id'' \<mapsto> JNum 0)])"
proof -
  have h: "parseInt ascii_engine ''abc'' = NaN"
    by (simp add: parse_defs ascii_defs)
  have h': "parseInt ascii_engine ''0xg'' = NaN"
    by (simp add: parse_defs ascii_defs)
  from h h' non_numeric_segment_not_found [OF h] non_numeric_segment_not_found [OF h']
  show ?thesis
    by simp
qed

text \<open>
  The claim as it stands speaks of every segment that is not a number. \<^verbatim>\<open>parseInt\<close>
  reads the digits a segment starts with and ignores the rest, so \<^verbatim>\<open>1abc\<close> is looked up
  as id 1: on the seed collection Get returns the laptop and Delete removes it.
\<close>

theorem digits_then_letters_counterexample:
  "get_item ascii_engine ''1abc'' initialData = (Inr laptop, initialData) \<and>
   delete_item ascii_engine ''1abc'' initialData = (Inr (), [deskChair, wirelessMouse])"
proof -
  have seg: "parseInt ascii_engine ''1abc'' = Num 1"
    by (simp add: parse_defs ascii_defs)
  show ?thesis
    unfolding get_item_def delete_item_def seg
    by (simp add: initialData_def Let_def) (simp add: laptop_def deskChair_def wirelessMouse_def)
qed

section \<open>What a request leaves alone\<close>

text \<open>
  Claim C7. A successful Create stores and returns the body with the computed id written
  under it and the current time written over its \<open>lastUpdated\<close>, and appends it, so the
  items already stored stay as they were. A successful Update rewrites the first item
  whose id is the parsed path id, and no other position: the new record is that item
  with the body spread over it, its id kept, and the current time as \<open>lastUpdated\<close>.
  List and Get write nothing, and what Delete keeps are the items whose id is not the
  parsed path id, unchanged and in their order.
\<close>

theorem lastUpdated_rewritten_rest_untouched:
  "(post_item E now body items = (Inr r, items1) \<longrightarrow>
      (\<exists>new_id. nextId E items = Some new_id \<and>
         r = ([''id'' \<mapsto> new_id] ++ body)(''lastUpdated'' \<mapsto> JStr now)) \<and>
      r ''lastUpdated'' = Some (JStr now) \<and>
      items1 = items @ [r]) \<and>
   (put_item E now seg body items = (Inr r', items2) \<longrightarrow>
      (\<exists>index<length items.
         strict_eq_num ((items ! index) ''id'') (parseInt E seg) \<and>
         (\<forall>j<index. \<not> strict_eq_num ((items ! j) ''id'') (parseInt E seg)) \<and>
         r' = (((items ! index) ++ body)(''id'' := (items ! index) ''id''))
                (''lastUpdated'' \<mapsto> JStr now) \<and>
         r' ''lastUpdated'' = Some (JStr now) \<and>
         items2 = items[index := r'] \<and>
         (\<forall>j<length items. j \<noteq> index \<longrightarrow> items2 ! j = items ! j))) \<and>
   snd (get_items E search category items) = items \<and>
   snd (get_item E seg items) = items \<and>
   snd (delete_item E seg items)
     = filter (\<lambda>i. \<not> strict_eq_num (i ''id'') (parseInt E seg)) items"
proof -
  have c: "post_item E now body items = (Inr r, items1) \<longrightarrow>
      (\<exists>new_id. nextId E items = Some new_id \<and>
         r = ([''id'' \<mapsto> new_id] ++ body)(''lastUpdated'' \<mapsto> JStr now)) \<and>
      r ''lastUpdated'' = Some (JStr now) \<and>
      items1 = items @ [r]"
    by (auto simp: post_item_def Let_def split: option.splits if_splits)
  have u: "put_item E now seg body items = (Inr r', items2) \<longrightarrow>
      (\<exists>index<length items.
         strict_eq_num ((items ! index) ''id'') (parseInt E seg) \<and>
         (\<forall>j<index. \<not> strict_eq_num ((items ! j) ''id'') (parseInt E seg)) \<and>
         r' = (((items ! index) ++ body)(''id'' := (items ! index) ''id''))
                (''lastUpdated'' \<mapsto> JStr now) \<and>
         r' ''lastUpdated'' = Some (JStr now) \<and>
         items2 = items[index := r'] \<and>
         (\<forall>j<length items. j \<noteq> index \<longrightarrow> items2 ! j = items ! j))"
  proof
    assume a: "put_item E now seg body items = (Inr r', items2)"
    then obtain index where
      fi: "findIndex (\<lambda>i. strict_eq_num (i ''id'') (parseInt E seg)) items = Some index"
      by (auto simp: put_item_def split: option.splits)
    from findIndex_Some [OF fi]
    have i: "index < length items"
      "strict_eq_num ((items ! index) ''id'') (parseInt E seg)"
      "\<forall>j<index. \<not> strict_eq_num ((items ! j) ''id'') (parseInt E seg)"
      by simp_all
    from a fi
    have r: "r' = (((items ! index) ++ body)(''id'' := (items ! index) ''id''))
                (''lastUpdated'' \<mapsto> JStr now)"
      and s: "items2 = items[index := r']"
      by (auto simp: put_item_def Let_def)
    from r have l: "r' ''lastUpdated'' = Some (JStr now)"
      by simp
    from s have "\<forall>j<length items. j \<noteq> index \<longrightarrow> items2 ! j = items ! j"
      by simp
    with i r s l
    show "\<exists>index<length items.
         strict_eq_num ((items ! index) ''id'') (parseInt E seg) \<and>
         (\<forall>j<index. \<not> strict_eq_num ((items ! j) ''id'') (parseInt E seg)) \<and>
         r' = (((items ! index) ++ body)(''id'' := (items ! index) ''id''))
                (''lastUpdated'' \<mapsto> JStr now) \<and>
         r' ''lastUpdated'' = Some (JStr now) \<and>
         items2 = items[index := r'] \<and>
         (\<forall>j<length items. j \<noteq> index \<longrightarrow> items2 ! j = items ! j)"
      by blast
  qed
  have l: "snd (get_items E search category items) = items"
    by (simp add: get_items_def Let_def split: option.splits sum.splits)
  have g: "snd (get_item E seg items) = items"
    by (simp add: get_item_def split: option.splits)
  have d: "snd (delete_item E seg items) =
      filter (\<lambda>i. \<not> strict_eq_num (i ''id'') (parseInt E seg)) items"
    by (simp add: delete_item_def Let_def filter_same_length)
  from c u l g d show ?thesis by blast
qed

theorem lastUpdated_rewritten_rest_untouched_witness:
  "post_item ascii_engine ''2024-05-01T12:00:00.000Z''
       (widget_fields(''lastUpdated'' \<mapsto> JStr ''1999-01-01T00:00:00.000Z'')) initialData
     = (Inr (([''id'' \<mapsto> JNum 4] ++ widget_fields(''lastUpdated'' \<mapsto> JStr ''1999-01-01T00:00:00.000Z''))
               (''lastUpdated'' \<mapsto> JStr ''2024-05-01T12:00:00.000Z'')),
        [laptop, deskChair, wirelessMouse,
         ([''id'' \<mapsto> JNum 4] ++ widget_fields(''lastUpdated'' \<mapsto> JStr ''1999-01-01T00:00:00.000Z''))
               (''lastUpdated'' \<mapsto> JStr ''2024-05-01T12:00:00.000Z'')]) \<and>
   (([''id'' \<mapsto> JNum 4] ++ widget_fields(''lastUpdated'' \<mapsto> JStr ''1999-01-01T00:00:00.000Z''))
       (''lastUpdated'' \<mapsto> JStr ''2024-05-01T12:00:00.000Z'')) ''lastUpdated''
     = Some (JStr ''2024-05-01T12:00:00.000Z'') \<and>
   put_item ascii_engine ''2024-05-01T12:00:00.000Z'' ''1''
       [''lastUpdated'' \<mapsto> JStr ''1999-01-01T00:00:00.000Z''] initialData
     = (Inr (laptop(''lastUpdated'' \<mapsto> JStr ''2024-05-01T12:00:00.000Z'')),
        [laptop(''lastUpdated'' \<mapsto> JStr ''2024-05-01T12:00:00.000Z''), deskChair, wirelessMouse]) \<and>
   snd (get_items ascii_engine (Some ''mouse'') None initialData) = initialData \<and>
   snd (get_item ascii_engine ''2'' initialData) = initialData \<and>
   snd (delete_item ascii_engine ''2'' initialData) = [laptop, wirelessMouse]"
proof -
  let ?now = "''2024-05-01T12:00:00.000Z''"
  let ?b = "widget_fields(''lastUpdated'' \<mapsto> JStr ''1999-01-01T00:00:00.000Z'')"
  let ?r = "([''id'' \<mapsto> JNum 4] ++ ?b)(''lastUpdated'' \<mapsto> JStr ?now)"
  let ?b' = "[''lastUpdated'' \<mapsto> JStr ''1999-01-01T00:00:00.000Z'']"
  let ?r' = "((laptop ++ ?b')(''id'' := laptop ''id''))(''lastUpdated'' \<mapsto> JStr ?now)"
  have n: "nextId ascii_engine initialData = Some (JNum 4)"
    by (simp add: nextId_def Math_max_def sample_defs ascii_engine_def)
  have c: "post_item ascii_engine ?now ?b initialData = (Inr ?r, initialData @ [?r])"
    by (simp add: post_item_def n Let_def widget_fields_def)
  have seg1: "parseInt ascii_engine ''1'' = Num 1"
    by (simp add: parse_defs ascii_defs)
  have seg2: "parseInt ascii_engine ''2'' = Num 2"
    by (simp add: parse_defs ascii_defs)
  have u: "put_item ascii_engine ?now ''1'' ?b' initialData = (Inr ?r', initialData[0 := ?r'])"
    unfolding put_item_def seg1 by (simp add: initialData_def Let_def) (simp add: laptop_def)
  have same: "?r' = laptop(''lastUpdated'' \<mapsto> JStr ?now)"
    by (rule ext) (simp add: laptop_def map_add_def)
  note t = lastUpdated_rewritten_rest_untouched [where E = ascii_engine and now = ?now
      and items = initialData]
  from t [where body = ?b and r = ?r and ?items1.0 = "initialData @ [?r]"] c
  have 1: "?r ''lastUpdated'' = Some (JStr ?now)"
    by blast
  from t [where seg = "''2''" and search = "Some ''mouse''" and category = None]
  have 2: "snd (get_items ascii_engine (Some ''mouse'') None initialData) = initialData"
    and 3: "snd (get_item ascii_engine ''2'' initialData) = initialData"
    and 4: "snd (delete_item ascii_engine ''2'' initialData)
      = filter (\<lambda>i. \<not> strict_eq_num (i ''id'') (parseInt ascii_engine ''2'')) initialData"
    by blast+
  from 4 have 5: "snd (delete_item ascii_engine ''2'' initialData) = [laptop, wirelessMouse]"
    unfolding seg2 by (simp add: sample_defs)
  from c have c': "post_item ascii_engine ?now ?b initialData
      = (Inr ?r, [laptop, deskChair, wirelessMouse, ?r])"
    by (simp add: initialData_def)
  from u same have u': "put_item ascii_engine ?now ''1'' ?b' initialData
      = (Inr (laptop(''lastUpdated'' \<mapsto> JStr ?now)),
         [laptop(''lastUpdated'' \<mapsto> JStr ?now), deskChair, wirelessMouse])"
    by (simp add: initialData_def)
  from c' 1 u' 2 3 5 show ?thesis
    by blast
qed

text \<open>
  Claim C8. A Create, Update or Delete that answers with an error (400 or 404, and also the
  500 of a raising id computation) leaves the persisted collection exactly as it was: the
  handler returns before \<^verbatim>\<open>writeData\<close>.
\<close>

theorem failed_mutation_no_effect:
  "(fst (post_item E now body items) = Inl e \<longrightarrow> snd (post_item E now body items) = items) \<and>
   (fst (put_item E now seg body items) = Inl e \<longrightarrow> snd (put_item E now seg body items) = items) \<and>
   (fst (delete_item E seg items) = Inl e \<longrightarrow> snd (delete_item E seg items) = items)"
  by (auto simp: post_item_def put_item_def delete_item_def Let_def split: option.splits if_splits)

theorem failed_mutation_no_effect_witness:
  "fst (post_item ascii_engine ''t'' Map.empty initialData) = Inl ValidationError \<and>
   snd (post_item ascii_engine ''t'' Map.empty initialData) = initialData \<and>
   fst (put_item ascii_engine ''t'' ''9'' widget_fields initialData) = Inl NotFound \<and>
   snd (put_item ascii_engine ''t'' ''9'' widget_fields initialData) = initialData \<and>
   fst (delete_item ascii_engine ''9'' initialData) = Inl NotFound \<and>
   snd (delete_item ascii_engine ''9'' initialData) = initialData"
  using failed_mutation_no_effect [where E = ascii_engine and now = "''t''" and body = Map.empty
      and items = initialData and e = ValidationError and seg = "''9''"]
    failed_mutation_no_effect [where E = ascii_engine and now = "''t''" and body = widget_fields
      and items = initialData and e = NotFound and seg = "''9''"]
  by (simp add: handler_defs sample_defs parse_defs ascii_defs)

section \<open>Several items with one id\<close>

text \<open>
  Claim C10. When the first item with the parsed id \<open>n\<close> is \<open>x\<close>, after the items
  \<open>pre\<close> and before the items \<open>post\<close> (which may hold further items with id \<open>n\<close>),
  Get returns \<open>x\<close>, Update rewrites \<open>x\<close> alone and leaves \<open>post\<close> as it is, and Delete
  removes \<open>x\<close> together with every item of \<open>post\<close> that has id \<open>n\<close>.
\<close>

theorem duplicate_ids_first_or_all:
  assumes seg: "parseInt E seg = Num n"
    and split: "items = pre @ x # post"
    and x: "x ''id'' = Some (JNum n)"
    and pre: "\<forall>i\<in>set pre. i ''id'' \<noteq> Some (JNum n)"
  shows "get_item E seg items = (Inr x, items) \<and>
         put_item E now seg body items =
           (Inr (((x ++ body)(''id'' := x ''id''))(''lastUpdated'' \<mapsto> JStr now)),
            pre @ ((x ++ body)(''id'' := x ''id''))(''lastUpdated'' \<mapsto> JStr now) # post) \<and>
         delete_item E seg items =
           (Inr (), pre @ filter (\<lambda>i. i ''id'' \<noteq> Some (JNum n)) post)"
proof -
  let ?p = "\<lambda>i. strict_eq_num (i ''id'') (parseInt E seg)"
  have p: "?p = (\<lambda>i. i ''id'' = Some (JNum n))"
    by (simp add: seg strict_eq_num_Num)
  have "List.find ?p items = Some x"
    unfolding p split using pre x by (intro find_append_first) auto
  then have g: "get_item E seg items = (Inr x, items)"
    by (simp add: get_item_def)
  have fi: "findIndex ?p items = Some (length pre)"
    unfolding p split using pre x by (intro findIndex_append_first) auto
  have u: "put_item E now seg body items =
           (Inr (((x ++ body)(''id'' := x ''id''))(''lastUpdated'' \<mapsto> JStr now)),
            pre @ ((x ++ body)(''id'' := x ''id''))(''lastUpdated'' \<mapsto> JStr now) # post)"
    unfolding put_item_def fi by (simp add: Let_def split)
  have fpre: "filter (\<lambda>i. i ''id'' \<noteq> Some (JNum n)) pre = pre"
    using pre by (simp add: filter_id_conv)
  have flt: "filter (\<lambda>i. \<not> ?p i) items = pre @ filter (\<lambda>i. i ''id'' \<noteq> Some (JNum n)) post"
    unfolding split using x by (simp add: seg strict_eq_num_Num fpre)
  have len: "length (pre @ filter (\<lambda>i. i ''id'' \<noteq> Some (JNum n)) post) \<noteq> length items"
    unfolding split using length_filter_le [of "\<lambda>i. i ''id'' \<noteq> Some (JNum n)" post]
    by (simp del: length_filter_le)
  have d: "delete_item E seg items = (Inr (), pre @ filter (\<lambda>i. i ''id'' \<noteq> Some (JNum n)) post)"
    unfolding delete_item_def Let_def flt using len by simp
  from g u d show ?thesis by simp
qed

theorem duplicate_ids_first_or_all_witness:
  "get_item ascii_engine ''1'' [deskChair, laptop, wirelessMouse(''id'' \<mapsto> JNum 1)]
     = (Inr laptop, [deskChair, laptop, wirelessMouse(''id'' \<mapsto> JNum 1)]) \<and>
   put_item ascii_engine ''2024-05-01T12:00:00.000Z'' ''1'' Map.empty
       [deskChair, laptop, wirelessMouse(''id'' \<mapsto> JNum 1)]
     = (Inr (laptop(''lastUpdated'' \<mapsto> JStr ''2024-05-01T12:00:00.000Z'')),
        [deskChair, laptop(''lastUpdated'' \<mapsto> JStr ''2024-05-01T12:00:00.000Z''),
         wirelessMouse(''id'' \<mapsto> JNum 1)]) \<and>
   delete_item ascii_engine ''1'' [deskChair, laptop, wirelessMouse(''id'' \<mapsto> JNum 1)]
     = (Inr (), [deskChair])"
proof -
  have seg: "parseInt ascii_engine ''1'' = Num 1"
    by (simp add: parse_defs ascii_defs)
  have split: "[deskChair, laptop, wirelessMouse(''id'' \<mapsto> JNum 1)]
      = [deskChair] @ laptop # [wirelessMouse(''id'' \<mapsto> JNum 1)]"
    by simp
  have x: "laptop ''id'' = Some (JNum 1)"
    by (simp add: laptop_def)
  have pre: "\<forall>i\<in>set [deskChair]. i ''id'' \<noteq> Some (JNum 1)"
    by (simp add: deskChair_def)
  have same: "(laptop ++ Map.empty)(''id'' := laptop ''id'') = laptop"
    by (simp add: x fun_upd_idem)
  from duplicate_ids_first_or_all [OF seg split x pre,
      of "''2024-05-01T12:00:00.000Z''" Map.empty]
  show ?thesis
    by (simp add: same)
qed

end
